theory Spec2Isabelle
  imports Complex_Main "HOL-Library.Word"
begin

section \<open>Host objects used by media-stream-download.js\<close>

text \<open>
  The script drives three kinds of host objects: \<open>HTMLVideoElement\<close>, \<open>MediaRecorder\<close> and
  \<open>Blob\<close>. Only the members the script reads or calls are modelled. A JavaScript exception is
  a value of type \<open>error\<close>; a call that may throw returns \<open>(error \<times> 's) + 's\<close>, where
  \<open>Inl (e, s)\<close> carries the state \<open>s\<close> reached when \<open>e\<close> was thrown (an exception does not
  roll back the assignments made before it).
\<close>

datatype error = CaptureStreamError | NotSupportedError | InvalidStateError

type_synonym 's result = "(error \<times> 's) + 's"

definition after :: "'s result \<Rightarrow> 's" where
  "after r = (case r of Inl (e, s) \<Rightarrow> s | Inr s \<Rightarrow> s)"

definition returns :: "'s result \<Rightarrow> bool" where
  "returns r = (case r of Inl x \<Rightarrow> False | Inr s \<Rightarrow> True)"

definition and_then :: "'s result \<Rightarrow> ('s \<Rightarrow> 's result) \<Rightarrow> 's result" where
  "and_then r f = (case r of Inl x \<Rightarrow> Inl x | Inr s \<Rightarrow> f s)"

subsection \<open>Blob\<close>

type_synonym byte = "8 word"

record blob =
  bytes :: "byte list"
  btype :: string

definition blob_size :: "blob \<Rightarrow> nat" where
  \<comment> \<open>\<open>blob.size\<close>\<close>
  "blob_size b = length (bytes b)"

definition Blob :: "blob list \<Rightarrow> string \<Rightarrow> blob" where
  \<comment> \<open>\<open>new Blob(parts, {type: ty})\<close>: the parts' bytes in order, tagged \<open>ty\<close>\<close>
  "Blob parts ty = \<lparr>bytes = concat (map bytes parts), btype = ty\<rparr>"

subsection \<open>HTMLVideoElement and the injected \<open>playing\<close> property\<close>

record video =
  currentTime :: real
  paused :: bool
  ended :: bool
  readyState :: nat
  canCapture :: bool  \<comment> \<open>whether \<open>captureStream\<close> returns a stream rather than throwing\<close>

definition playing :: "video \<Rightarrow> bool" where
  \<comment> \<open>lines 5-11: \<open>!!(currentTime > 0 && !paused && !ended && readyState > 2)\<close>\<close>
  "playing v = (currentTime v > 0 \<and> \<not> paused v \<and> \<not> ended v \<and> readyState v > 2)"

datatype stream = MediaStream nat

definition captureStream :: "video \<Rightarrow> nat \<Rightarrow> error + stream" where
  "captureStream v rate = (if canCapture v then Inr (MediaStream rate) else Inl CaptureStreamError)"

subsection \<open>MediaRecorder\<close>

datatype rstate = Inactive | Recording | Paused

record options =
  opt_mimeType :: "string option"

record recorder =
  rid :: nat  \<comment> \<open>object identity: the number of recorders its worker had made before it\<close>
  rstate :: rstate
  rstream :: stream
  roptions :: options

definition MediaRecorder_new ::
  "(string \<Rightarrow> bool) \<Rightarrow> nat \<Rightarrow> stream \<Rightarrow> options \<Rightarrow> error + recorder" where
  \<comment> \<open>\<open>new MediaRecorder(stream, options)\<close>; \<open>supported\<close> is the host's
      \<open>MediaRecorder.isTypeSupported\<close>. A new recorder is inactive.\<close>
  "MediaRecorder_new supported i s opts =
     (case opt_mimeType opts of
        Some ty \<Rightarrow>
          if supported ty
          then Inr \<lparr>rid = i, rstate = Inactive, rstream = s, roptions = opts\<rparr>
          else Inl NotSupportedError
      | None \<Rightarrow> Inr \<lparr>rid = i, rstate = Inactive, rstream = s, roptions = opts\<rparr>)"

definition MediaRecorder_start :: "recorder \<Rightarrow> error + recorder" where
  "MediaRecorder_start r =
     (if rstate r \<noteq> Inactive then Inl InvalidStateError else Inr (r\<lparr>rstate := Recording\<rparr>))"

definition MediaRecorder_resume :: "recorder \<Rightarrow> error + recorder" where
  "MediaRecorder_resume r =
     (if rstate r = Inactive then Inl InvalidStateError else Inr (r\<lparr>rstate := Recording\<rparr>))"

definition MediaRecorder_pause :: "recorder \<Rightarrow> error + recorder" where
  "MediaRecorder_pause r =
     (if rstate r = Inactive then Inl InvalidStateError else Inr (r\<lparr>rstate := Paused\<rparr>))"

definition MediaRecorder_stop :: "recorder \<Rightarrow> error + recorder" where
  \<comment> \<open>The recorder becomes inactive at once; its last \<open>dataavailable\<close> event and its
      \<open>stop\<close> event are delivered later, as events of their own.\<close>
  "MediaRecorder_stop r =
     (if rstate r = Inactive then Inl InvalidStateError else Inr (r\<lparr>rstate := Inactive\<rparr>))"

section \<open>Logger (lines 174-203)\<close>

datatype verbosity = NONE | LOW | HIGH

definition Logger_new :: "verbosity option \<Rightarrow> verbosity" where
  "Logger_new v = (case v of None \<Rightarrow> NONE | Some x \<Rightarrow> x)"

definition Logger_log :: "verbosity \<Rightarrow> string \<Rightarrow> string list \<Rightarrow> string list \<Rightarrow> string list" where
  \<comment> \<open>the console after \<open>log(str, ...args)\<close>\<close>
  "Logger_log v str args out =
     (case v of
        LOW \<Rightarrow> out @ [str]
      | HIGH \<Rightarrow> out @ [str] @ args
      | NONE \<Rightarrow> out)"

section \<open>VideoDownloadWorker (lines 42-169)\<close>

text \<open>
  The private fields of the class, followed by what the worker does to the outside: the lines
  its logger printed (\<open>console\<close>), the files its anchor offered for download (\<open>downloads\<close>, a
  filename with the blob behind the object URL at the click), and how many \<open>MediaRecorder\<close>
  objects it has constructed (\<open>created\<close>). \<open>video\<close> holds the current attributes of the
  element the worker was given. The worker's field is the only reference through which a
  recorder's methods are called, so the recorder is kept by value together with its identity.
\<close>

record worker =
  logger :: verbosity
  fps :: nat
  filename :: string
  options :: options
  mimeType :: string
  video :: video
  mediaRecorder :: "recorder option"
  recordedChunks :: "blob list"
  console :: "string list"
  downloads :: "(string \<times> blob) list"
  created :: nat

definition VideoDownloadWorker_new ::
  "video \<Rightarrow> string option \<Rightarrow> string option \<Rightarrow> options option \<Rightarrow> worker" where
  \<comment> \<open>lines 43-61: the field initialisers run first, then the constructor body, which assigns
      \<open>#video\<close>, \<open>#filename\<close> and \<open>#options\<close>. The \<open>mimeType\<close> argument \<open>mt\<close> is not
      assigned to any field.\<close>
  "VideoDownloadWorker_new v fn mt opts =
     \<lparr>logger = Logger_new (Some LOW),
      fps = 0,
      filename = (case fn of None \<Rightarrow> ''cast.webm'' | Some f \<Rightarrow> f),
      options = (case opts of None \<Rightarrow> \<lparr>opt_mimeType = Some ''video/webm; codecs=vp9''\<rparr>
                 | Some x \<Rightarrow> x),
      mimeType = ''video/webm'',
      video = v,
      mediaRecorder = None,
      recordedChunks = [],
      console = [],
      downloads = [],
      created = 0\<rparr>"

definition wlog :: "string \<Rightarrow> string list \<Rightarrow> worker \<Rightarrow> worker" where
  \<comment> \<open>\<open>this.#logger.log(str, ...args)\<close>\<close>
  "wlog str args w = w\<lparr>console := Logger_log (logger w) str args (console w)\<rparr>"

definition recorder_state :: "worker \<Rightarrow> rstate option" where
  "recorder_state w = map_option rstate (mediaRecorder w)"

definition onDataAvailable :: "blob \<Rightarrow> worker \<Rightarrow> worker" where
  \<comment> \<open>lines 95-100; the argument is \<open>event.data\<close>\<close>
  "onDataAvailable d w =
     wlog ''data available'' [''dataavailable'']
       (if blob_size d > 0 then w\<lparr>recordedChunks := recordedChunks w @ [d]\<rparr> else w)"

definition downloadVideo :: "worker \<Rightarrow> worker" where
  \<comment> \<open>lines 102-125. The object URL is created and revoked inside the handler and the anchor
      is appended and removed again; what remains is the click, recorded in \<open>downloads\<close>.\<close>
  "downloadVideo w =
     (let b = Blob (recordedChunks w) (mimeType w);
          w1 = w\<lparr>downloads := downloads w @ [(filename w, b)]\<rparr>;
          w2 = w1\<lparr>mediaRecorder := None\<rparr>;
          w3 = w2\<lparr>recordedChunks := []\<rparr>
      in wlog ''downloading video'' [] w3)"

definition newMediaRecorder :: "(string \<Rightarrow> bool) \<Rightarrow> worker \<Rightarrow> error + (recorder \<times> worker)" where
  \<comment> \<open>lines 127-133; the two handlers are attached to every recorder the worker makes\<close>
  "newMediaRecorder supported w =
     (case captureStream (video w) (fps w) of
        Inl e \<Rightarrow> Inl e
      | Inr s \<Rightarrow>
          (case MediaRecorder_new supported (created w) s (options w) of
             Inl e \<Rightarrow> Inl e
           | Inr r \<Rightarrow> Inr (r, w\<lparr>created := Suc (created w)\<rparr>)))"

definition start_new :: "(string \<Rightarrow> bool) \<Rightarrow> worker \<Rightarrow> worker result" where
  \<comment> \<open>lines 139-145, the body of the first branch of \<open>start\<close>\<close>
  "start_new supported w =
     (case newMediaRecorder supported w of
        Inl e \<Rightarrow> Inl (e, w)
      | Inr (r, w1) \<Rightarrow>
          (let w2 = w1\<lparr>mediaRecorder := Some r\<rparr> in
           if playing (video w2) then
             (case MediaRecorder_start r of
                Inl e \<Rightarrow> Inl (e, w2)
              | Inr r' \<Rightarrow> Inr (wlog ''recording'' [] (w2\<lparr>mediaRecorder := Some r'\<rparr>)))
           else Inr (wlog ''stream not playing, waiting to start recording'' [] w2)))"

definition start :: "(string \<Rightarrow> bool) \<Rightarrow> worker \<Rightarrow> worker result" where
  \<comment> \<open>lines 137-152\<close>
  "start supported w =
     (case mediaRecorder w of
        None \<Rightarrow> start_new supported w
      | Some r \<Rightarrow>
          if rstate r = Inactive then start_new supported w
          else if rstate r = Paused then
            (case MediaRecorder_resume r of
               Inl e \<Rightarrow> Inl (e, w)
             | Inr r' \<Rightarrow> Inr (wlog ''resuming paused recording'' [] (w\<lparr>mediaRecorder := Some r'\<rparr>)))
          else Inr (wlog ''already recording'' [] w))"

definition stop :: "worker \<Rightarrow> worker result" where
  \<comment> \<open>lines 154-159\<close>
  "stop w =
     (case mediaRecorder w of
        None \<Rightarrow> Inr w
      | Some r \<Rightarrow>
          if rstate r \<noteq> Inactive then
            (case MediaRecorder_stop r of
               Inl e \<Rightarrow> Inl (e, w)
             | Inr r' \<Rightarrow>
                 Inr (wlog ''stop active or paused media recording'' []
                        (w\<lparr>mediaRecorder := Some r'\<rparr>)))
          else Inr w)"

definition pause :: "worker \<Rightarrow> worker result" where
  \<comment> \<open>lines 162-167\<close>
  "pause w =
     (case mediaRecorder w of
        None \<Rightarrow> Inr w
      | Some r \<Rightarrow>
          if rstate r = Recording then
            (case MediaRecorder_pause r of
               Inl e \<Rightarrow> Inl (e, w)
             | Inr r' \<Rightarrow> Inr (wlog ''pause media recording'' [] (w\<lparr>mediaRecorder := Some r'\<rparr>)))
          else Inr w)"

definition onPlayingEvent :: "(string \<Rightarrow> bool) \<Rightarrow> worker \<Rightarrow> worker result" where
  \<comment> \<open>lines 72-77\<close>
  "onPlayingEvent supported w =
     and_then (if mediaRecorder w \<noteq> None then start supported w else Inr w)
       (\<lambda>w'. Inr (wlog ''video is now playing'' [''playing''] w'))"

definition onStalledEvent :: "worker \<Rightarrow> worker result" where
  \<comment> \<open>lines 79-82\<close>
  "onStalledEvent w = and_then (pause w) (\<lambda>w'. Inr (wlog ''video is stalled'' [''stalled''] w'))"

definition onPauseEvent :: "worker \<Rightarrow> worker result" where
  \<comment> \<open>lines 84-87\<close>
  "onPauseEvent w = and_then (pause w) (\<lambda>w'. Inr (wlog ''video is paused'' [''pause''] w'))"

definition onEndedEvent :: "worker \<Rightarrow> worker result" where
  \<comment> \<open>lines 89-92\<close>
  "onEndedEvent w = and_then (stop w) (\<lambda>w'. Inr (wlog ''video ended'' [''ended''] w'))"

subsection \<open>Events reaching one worker\<close>

text \<open>
  Everything that happens to a worker is a call of one of its three public functions, a video
  event dispatched to one of its four listeners, a recorder event dispatched to one of its two
  handlers, or a change of the video element's attributes made by the host. The host runs
  them one at a time, each to completion; an exception that leaves a listener ends that
  listener only, and the next event finds the state the exception left.
\<close>

datatype event =
    CallStart | CallStop | CallPause
  | VideoPlaying | VideoPause | VideoStalled | VideoEnded
  | DataAvailable blob | RecorderStop
  | VideoChange video

fun step :: "(string \<Rightarrow> bool) \<Rightarrow> worker \<Rightarrow> event \<Rightarrow> worker result" where
  "step supported w CallStart = start supported w"
| "step supported w CallStop = stop w"
| "step supported w CallPause = pause w"
| "step supported w VideoPlaying = onPlayingEvent supported w"
| "step supported w VideoPause = onPauseEvent w"
| "step supported w VideoStalled = onStalledEvent w"
| "step supported w VideoEnded = onEndedEvent w"
| "step supported w (DataAvailable d) = Inr (onDataAvailable d w)"
| "step supported w RecorderStop = Inr (downloadVideo w)"
| "step supported w (VideoChange v) = Inr (w\<lparr>video := v\<rparr>)"

fun run :: "(string \<Rightarrow> bool) \<Rightarrow> worker \<Rightarrow> event list \<Rightarrow> worker" where
  "run supported w [] = w"
| "run supported w (e # es) = run supported (after (step supported w e)) es"

subsection \<open>The specification's names for the worker's states\<close>

definition is_Idle :: "worker \<Rightarrow> bool" where
  "is_Idle w = (mediaRecorder w = None)"

definition is_Armed :: "worker \<Rightarrow> bool" where
  "is_Armed w = (recorder_state w = Some Inactive)"

definition is_Recording :: "worker \<Rightarrow> bool" where
  "is_Recording w = (recorder_state w = Some Recording)"

definition is_Paused :: "worker \<Rightarrow> bool" where
  "is_Paused w = (recorder_state w = Some Paused)"

section \<open>VideoDownloader (lines 15-39)\<close>

record downloader =
  videos :: "video list"
  workers :: "worker list"

definition VideoDownloader_new :: "video list \<Rightarrow> downloader" where
  \<comment> \<open>lines 16-24; the argument is \<open>document.getElementsByTagName('video')\<close>\<close>
  "VideoDownloader_new vs =
     \<lparr>videos = vs, workers = map (\<lambda>v. VideoDownloadWorker_new v None None None) vs\<rparr>"

fun start_each :: "(string \<Rightarrow> bool) \<Rightarrow> worker list \<Rightarrow> worker list result" where
  \<comment> \<open>the loop of lines 28-30: the first exception leaves the loop\<close>
  "start_each supported [] = Inr []"
| "start_each supported (w # ws) =
     (case start supported w of
        Inl (e, w') \<Rightarrow> Inl (e, w' # ws)
      | Inr w' \<Rightarrow>
          (case start_each supported ws of
             Inl (e, ws') \<Rightarrow> Inl (e, w' # ws')
           | Inr ws' \<Rightarrow> Inr (w' # ws')))"

fun stop_each :: "worker list \<Rightarrow> worker list result" where
  \<comment> \<open>the loop of lines 35-37\<close>
  "stop_each [] = Inr []"
| "stop_each (w # ws) =
     (case stop w of
        Inl (e, w') \<Rightarrow> Inl (e, w' # ws)
      | Inr w' \<Rightarrow>
          (case stop_each ws of
             Inl (e, ws') \<Rightarrow> Inl (e, w' # ws')
           | Inr ws' \<Rightarrow> Inr (w' # ws')))"

definition VideoDownloader_start :: "(string \<Rightarrow> bool) \<Rightarrow> downloader \<Rightarrow> downloader result" where
  "VideoDownloader_start supported d =
     (case start_each supported (workers d) of
        Inl (e, ws) \<Rightarrow> Inl (e, d\<lparr>workers := ws\<rparr>)
      | Inr ws \<Rightarrow> Inr (d\<lparr>workers := ws\<rparr>))"

definition VideoDownloader_stop :: "downloader \<Rightarrow> downloader result" where
  "VideoDownloader_stop d =
     (case stop_each (workers d) of
        Inl (e, ws) \<Rightarrow> Inl (e, d\<lparr>workers := ws\<rparr>)
      | Inr ws \<Rightarrow> Inr (d\<lparr>workers := ws\<rparr>))"

section \<open>Vocabulary of the properties\<close>

definition can_record :: "(string \<Rightarrow> bool) \<Rightarrow> worker \<Rightarrow> bool" where
  \<comment> \<open>\<open>#newMediaRecorder\<close> would return a recorder rather than throw\<close>
  "can_record supported w =
     (case newMediaRecorder supported w of Inl e \<Rightarrow> False | Inr x \<Rightarrow> True)"

definition fresh_recorder :: "worker \<Rightarrow> rstate \<Rightarrow> recorder" where
  \<comment> \<open>the next recorder the worker would make, brought to state \<open>s\<close>\<close>
  "fresh_recorder w s =
     \<lparr>rid = created w, rstate = s, rstream = MediaStream (fps w), roptions = options w\<rparr>"

definition no_empty_chunk :: "worker \<Rightarrow> bool" where
  "no_empty_chunk w = list_all (\<lambda>c. 0 < blob_size c) (recordedChunks w)"

definition rid_fresh :: "worker \<Rightarrow> bool" where
  \<comment> \<open>the recorder held is one the worker has made\<close>
  "rid_fresh w = (case mediaRecorder w of None \<Rightarrow> True | Some r \<Rightarrow> rid r < created w)"

fun all_return :: "(string \<Rightarrow> bool) \<Rightarrow> worker \<Rightarrow> event list \<Rightarrow> bool" where
  \<comment> \<open>none of the events, handled in order as \<open>run\<close> does, ends in an exception\<close>
  "all_return supported w [] = True"
| "all_return supported w (e # es) =
     (returns (step supported w e) \<and> all_return supported (after (step supported w e)) es)"

definition queued_by_stop :: "worker \<Rightarrow> worker \<Rightarrow> blob \<Rightarrow> event list" where
  \<comment> \<open>The events the host delivers because of a call that took the worker from \<open>w\<close> to
      \<open>w'\<close>: when the call has made the recording or paused recorder of \<open>w\<close> inactive, as
      \<open>MediaRecorder.stop()\<close> does, a last \<open>dataavailable\<close> event with the data gathered
      since the previous one (\<open>final\<close>, possibly empty), then the \<open>stop\<close> event, to the
      handlers attached at lines 130-131; no event otherwise.\<close>
  "queued_by_stop w w' final =
     (if (recorder_state w = Some Recording \<or> recorder_state w = Some Paused)
         \<and> recorder_state w' = Some Inactive
         \<and> map_option rid (mediaRecorder w') = map_option rid (mediaRecorder w)
      then [DataAvailable final, RecorderStop]
      else [])"

subsection \<open>Concrete hosts, sources and chunks\<close>

definition any_type :: "string \<Rightarrow> bool" where
  "any_type ty = True"

definition playing_video :: video where
  "playing_video =
     \<lparr>currentTime = 1, paused = False, ended = False, readyState = 4, canCapture = True\<rparr>"

definition starting_video :: video where
  \<comment> \<open>playback begins at position 0: not paused, data buffered, but \<open>currentTime > 0\<close> fails\<close>
  "starting_video =
     \<lparr>currentTime = 0, paused = False, ended = False, readyState = 4, canCapture = True\<rparr>"

definition waiting_video :: video where
  "waiting_video =
     \<lparr>currentTime = 0, paused = True, ended = False, readyState = 0, canCapture = True\<rparr>"

definition protected_video :: video where
  "protected_video =
     \<lparr>currentTime = 1, paused = False, ended = False, readyState = 4, canCapture = False\<rparr>"

definition chunk_a :: blob where
  "chunk_a = \<lparr>bytes = [1, 2], btype = ''video/webm; codecs=vp9''\<rparr>"

definition chunk_b :: blob where
  "chunk_b = \<lparr>bytes = [3], btype = ''video/webm; codecs=vp9''\<rparr>"

definition chunk_empty :: blob where
  "chunk_empty = \<lparr>bytes = [], btype = ''video/webm; codecs=vp9''\<rparr>"

definition default_worker :: "video \<Rightarrow> worker" where
  \<comment> \<open>\<open>new VideoDownloadWorker(video)\<close>, as the downloader makes its workers\<close>
  "default_worker v = VideoDownloadWorker_new v None None None"

definition armed_worker :: worker where
  \<comment> \<open>started while the source waited; the source has begun to play since\<close>
  "armed_worker =
     run any_type (default_worker waiting_video) [CallStart, VideoChange playing_video]"

definition armed_at_zero :: worker where
  "armed_at_zero = run any_type (default_worker starting_video) [CallStart]"

definition recording_worker :: worker where
  "recording_worker = run any_type (default_worker playing_video) [CallStart]"

definition armed_uncapturable :: worker where
  \<comment> \<open>armed while the source waited; the source has stopped giving out streams since\<close>
  "armed_uncapturable =
     run any_type (default_worker waiting_video) [CallStart, VideoChange protected_video]"

definition with_failing_second :: downloader where
  "with_failing_second = VideoDownloader_new [playing_video, protected_video, waiting_video]"

definition with_failing_first :: downloader where
  "with_failing_first = VideoDownloader_new [protected_video, playing_video]"

definition all_capturable :: downloader where
  "all_capturable = VideoDownloader_new [playing_video, waiting_video]"

lemmas evaluate =
  default_worker_def VideoDownloadWorker_new_def Logger_new_def Logger_log_def wlog_def
  any_type_def playing_video_def starting_video_def waiting_video_def protected_video_def
  chunk_a_def chunk_b_def chunk_empty_def armed_worker_def armed_at_zero_def recording_worker_def
  armed_uncapturable_def
  with_failing_second_def with_failing_first_def all_capturable_def
  playing_def captureStream_def MediaRecorder_new_def MediaRecorder_start_def
  MediaRecorder_resume_def MediaRecorder_pause_def MediaRecorder_stop_def newMediaRecorder_def
  start_new_def start_def stop_def pause_def onPlayingEvent_def onPauseEvent_def
  onStalledEvent_def onEndedEvent_def onDataAvailable_def downloadVideo_def Blob_def
  blob_size_def Let_def is_Idle_def is_Armed_def is_Recording_def is_Paused_def
  recorder_state_def can_record_def no_empty_chunk_def VideoDownloader_new_def
  VideoDownloader_start_def VideoDownloader_stop_def returns_def after_def and_then_def

section \<open>Basic facts\<close>

lemma wlog_fields [simp]:
  "mediaRecorder (wlog s a w) = mediaRecorder w"
  "recordedChunks (wlog s a w) = recordedChunks w"
  "downloads (wlog s a w) = downloads w"
  "created (wlog s a w) = created w"
  "video (wlog s a w) = video w"
  "filename (wlog s a w) = filename w"
  "mimeType (wlog s a w) = mimeType w"
  "options (wlog s a w) = options w"
  "fps (wlog s a w) = fps w"
  "logger (wlog s a w) = logger w"
  by (simp_all add: wlog_def)

lemma after_simps [simp]: "after (Inr s) = s" "after (Inl (e, s)) = s"
  by (simp_all add: after_def)

lemma returns_simps [simp]: "returns (Inr s) = True" "returns (Inl x) = False"
  by (simp_all add: returns_def)

lemma and_then_simps [simp]: "and_then (Inr s) f = f s" "and_then (Inl x) f = Inl x"
  by (simp_all add: and_then_def)

lemma state_names_wlog [simp]:
  "is_Idle (wlog s a w) = is_Idle w"
  "is_Armed (wlog s a w) = is_Armed w"
  "is_Recording (wlog s a w) = is_Recording w"
  "is_Paused (wlog s a w) = is_Paused w"
  by (simp_all add: is_Idle_def is_Armed_def is_Recording_def is_Paused_def recorder_state_def)

lemma after_and_then_log:
  assumes "\<And>w. f (wlog s a w) = f w"
  shows "f (after (and_then r (\<lambda>w'. Inr (wlog s a w')))) = f (after r)"
  using assms by (cases r) auto

lemma run_append: "run supported w (es @ fs) = run supported (run supported w es) fs"
  by (induction es arbitrary: w) simp_all

subsection \<open>Making a recorder\<close>

lemma newMediaRecorder_Inr:
  "newMediaRecorder supported w = Inr (r, w1) \<Longrightarrow>
     rid r = created w \<and> rstate r = Inactive \<and> w1 = w\<lparr>created := Suc (created w)\<rparr>"
  by (auto simp: newMediaRecorder_def MediaRecorder_new_def
      split: sum.splits option.splits if_splits)

lemma can_record_newMediaRecorder:
  "can_record supported w \<Longrightarrow>
     newMediaRecorder supported w
       = Inr (fresh_recorder w Inactive, w\<lparr>created := Suc (created w)\<rparr>)"
  by (auto simp: can_record_def newMediaRecorder_def MediaRecorder_new_def captureStream_def
      fresh_recorder_def split: sum.splits option.splits if_splits)

lemma start_new_can_record:
  "can_record supported w \<Longrightarrow>
     start_new supported w =
       Inr (if playing (video w)
            then wlog ''recording'' []
                   (w\<lparr>created := Suc (created w),
                      mediaRecorder := Some (fresh_recorder w Recording)\<rparr>)
            else wlog ''stream not playing, waiting to start recording'' []
                   (w\<lparr>created := Suc (created w),
                      mediaRecorder := Some (fresh_recorder w Inactive)\<rparr>))"
  by (simp add: start_new_def can_record_newMediaRecorder MediaRecorder_start_def
      fresh_recorder_def)

lemma start_new_cannot:
  "\<not> can_record supported w \<Longrightarrow> \<exists>e. start_new supported w = Inl (e, w)"
  by (auto simp: can_record_def start_new_def split: sum.splits)

lemma start_Idle_or_Armed:
  "is_Idle w \<or> is_Armed w \<Longrightarrow> start supported w = start_new supported w"
  by (auto simp: is_Idle_def is_Armed_def recorder_state_def start_def split: option.splits)

lemma start_when_Recording:
  "is_Recording w \<Longrightarrow> start supported w = Inr (wlog ''already recording'' [] w)"
  by (auto simp: is_Recording_def recorder_state_def start_def split: option.splits)

lemma stop_active:
  "mediaRecorder w = Some r \<Longrightarrow> rstate r \<noteq> Inactive \<Longrightarrow>
     stop w = Inr (wlog ''stop active or paused media recording'' []
                     (w\<lparr>mediaRecorder := Some (r\<lparr>rstate := Inactive\<rparr>)\<rparr>))"
  by (simp add: stop_def MediaRecorder_stop_def)

lemma stop_returns: "returns (stop w)"
  by (auto simp: stop_def MediaRecorder_stop_def split: option.splits)

lemma pause_returns: "returns (pause w)"
  by (auto simp: pause_def MediaRecorder_pause_def split: option.splits)

subsection \<open>What each operation leaves alone\<close>

lemma start_new_downloads: "downloads (after (start_new supported w)) = downloads w"
  by (auto simp: start_new_def MediaRecorder_start_def Let_def
      split: sum.splits prod.splits dest!: newMediaRecorder_Inr)

lemma start_new_chunks: "recordedChunks (after (start_new supported w)) = recordedChunks w"
  by (auto simp: start_new_def MediaRecorder_start_def Let_def
      split: sum.splits prod.splits dest!: newMediaRecorder_Inr)

lemma start_downloads: "downloads (after (start supported w)) = downloads w"
  by (auto simp: start_def start_new_downloads MediaRecorder_resume_def split: option.splits)

lemma start_chunks: "recordedChunks (after (start supported w)) = recordedChunks w"
  by (auto simp: start_def start_new_chunks MediaRecorder_resume_def split: option.splits)

lemma stop_downloads: "downloads (after (stop w)) = downloads w"
  by (auto simp: stop_def MediaRecorder_stop_def split: option.splits)

lemma stop_chunks: "recordedChunks (after (stop w)) = recordedChunks w"
  by (auto simp: stop_def MediaRecorder_stop_def split: option.splits)

lemma pause_downloads: "downloads (after (pause w)) = downloads w"
  by (auto simp: pause_def MediaRecorder_pause_def split: option.splits)

lemma pause_chunks: "recordedChunks (after (pause w)) = recordedChunks w"
  by (auto simp: pause_def MediaRecorder_pause_def split: option.splits)

lemma onDataAvailable_fields [simp]:
  "mediaRecorder (onDataAvailable d w) = mediaRecorder w"
  "downloads (onDataAvailable d w) = downloads w"
  "created (onDataAvailable d w) = created w"
  "filename (onDataAvailable d w) = filename w"
  "mimeType (onDataAvailable d w) = mimeType w"
  "video (onDataAvailable d w) = video w"
  by (simp_all add: onDataAvailable_def)

lemma onDataAvailable_chunks:
  "recordedChunks (onDataAvailable d w)
     = recordedChunks w @ filter (\<lambda>c. 0 < blob_size c) [d]"
  by (simp add: onDataAvailable_def)

lemma downloadVideo_downloads:
  "downloads (downloadVideo w)
     = downloads w @ [(filename w, Blob (recordedChunks w) (mimeType w))]"
  by (simp add: downloadVideo_def Let_def)

lemma downloadVideo_Idle: "is_Idle (downloadVideo w)"
  by (simp add: is_Idle_def downloadVideo_def Let_def)

lemma downloadVideo_chunks: "recordedChunks (downloadVideo w) = []"
  by (simp add: downloadVideo_def Let_def)

lemma downloadVideo_created: "created (downloadVideo w) = created w"
  by (simp add: downloadVideo_def Let_def)

lemma deliver_fields:
  "mediaRecorder (run supported w (map DataAvailable cs)) = mediaRecorder w
   \<and> downloads (run supported w (map DataAvailable cs)) = downloads w
   \<and> created (run supported w (map DataAvailable cs)) = created w
   \<and> filename (run supported w (map DataAvailable cs)) = filename w
   \<and> mimeType (run supported w (map DataAvailable cs)) = mimeType w
   \<and> recordedChunks (run supported w (map DataAvailable cs))
       = recordedChunks w @ filter (\<lambda>c. 0 < blob_size c) cs"
  by (induction cs arbitrary: w) (simp_all add: onDataAvailable_chunks)

subsection \<open>Files offered for download are never taken back\<close>

lemma step_downloads:
  "\<exists>more. downloads (after (step supported w e)) = downloads w @ more"
proof (cases e)
  case VideoPlaying
  then show ?thesis
    by (simp add: onPlayingEvent_def after_and_then_log start_downloads)
qed (simp_all add: start_downloads stop_downloads pause_downloads onPauseEvent_def
      onStalledEvent_def onEndedEvent_def after_and_then_log downloadVideo_downloads)

lemma run_downloads:
  "\<exists>more. downloads (run supported w es) = downloads w @ more"
proof (induction es arbitrary: w)
  case Nil
  then show ?case by simp
next
  case (Cons e es)
  obtain m1 where m1: "downloads (after (step supported w e)) = downloads w @ m1"
    using step_downloads by blast
  obtain m2 where "downloads (run supported (after (step supported w e)) es)
      = downloads (after (step supported w e)) @ m2"
    using Cons.IH by blast
  with m1 show ?case by simp
qed

subsection \<open>Without a call of \<open>start\<close> an idle worker stays idle\<close>

lemma stop_Idle: "is_Idle w \<Longrightarrow> stop w = Inr w"
  by (simp add: is_Idle_def stop_def)

lemma pause_Idle: "is_Idle w \<Longrightarrow> pause w = Inr w"
  by (simp add: is_Idle_def pause_def)

lemma onPlayingEvent_Idle:
  "is_Idle w \<Longrightarrow>
     onPlayingEvent supported w = Inr (wlog ''video is now playing'' [''playing''] w)"
  by (simp add: is_Idle_def onPlayingEvent_def)

lemma step_Idle:
  "is_Idle w \<Longrightarrow> e \<noteq> CallStart \<Longrightarrow>
     is_Idle (after (step supported w e))
     \<and> created (after (step supported w e)) = created w"
  by (cases e)
    (simp_all add: stop_Idle pause_Idle onPlayingEvent_Idle onPauseEvent_def onStalledEvent_def
      onEndedEvent_def downloadVideo_Idle downloadVideo_created, simp_all add: is_Idle_def)

lemma run_Idle:
  "is_Idle w \<Longrightarrow> CallStart \<notin> set es \<Longrightarrow>
     is_Idle (run supported w es) \<and> created (run supported w es) = created w"
proof (induction es arbitrary: w)
  case Nil
  then show ?case by simp
next
  case (Cons e es)
  from Cons.prems have ne: "e \<noteq> CallStart" and rest: "CallStart \<notin> set es" by auto
  from step_Idle [OF Cons.prems(1) ne, of supported]
  have s: "is_Idle (after (step supported w e))"
    "created (after (step supported w e)) = created w" by simp_all
  from Cons.IH [OF s(1) rest] s(2) show ?case by simp
qed

subsection \<open>An idle worker throws nothing unless \<open>start\<close> is called\<close>

lemma step_Idle_returns:
  "is_Idle w \<Longrightarrow> e \<noteq> CallStart \<Longrightarrow> returns (step supported w e)"
  by (cases e)
    (simp_all add: stop_Idle pause_Idle onPlayingEvent_Idle onPauseEvent_def onStalledEvent_def
      onEndedEvent_def)

lemma run_Idle_all_return:
  "is_Idle w \<Longrightarrow> CallStart \<notin> set es \<Longrightarrow> all_return supported w es"
proof (induction es arbitrary: w)
  case Nil
  then show ?case by simp
next
  case (Cons e es)
  from Cons.prems have ne: "e \<noteq> CallStart" and rest: "CallStart \<notin> set es" by auto
  from step_Idle [OF Cons.prems(1) ne, of supported]
  have "is_Idle (after (step supported w e))" by simp
  from Cons.IH [OF this rest] step_Idle_returns [OF Cons.prems(1) ne, of supported]
  show ?case by simp
qed

subsection \<open>The buffer holds no empty chunk\<close>

lemma step_no_empty_chunk:
  assumes "no_empty_chunk w"
  shows "no_empty_chunk (after (step supported w e))"
  using assms
proof (cases e)
  case VideoPlaying
  with assms show ?thesis
    by (simp add: no_empty_chunk_def onPlayingEvent_def after_and_then_log start_chunks)
next
  case (DataAvailable d)
  with assms show ?thesis
    by (simp add: no_empty_chunk_def onDataAvailable_chunks)
next
  case RecorderStop
  then show ?thesis
    by (simp add: no_empty_chunk_def downloadVideo_chunks)
next
  case (VideoChange v)
  with assms show ?thesis by (simp add: no_empty_chunk_def)
qed (simp_all add: no_empty_chunk_def start_chunks stop_chunks pause_chunks
      onPauseEvent_def onStalledEvent_def onEndedEvent_def after_and_then_log)

lemma run_no_empty_chunk:
  "no_empty_chunk w \<Longrightarrow> no_empty_chunk (run supported w es)"
  by (induction es arbitrary: w) (simp_all add: step_no_empty_chunk)

subsection \<open>The recorder held is always one the worker made\<close>

lemma rid_fresh_wlog [simp]: "rid_fresh (wlog s a w) = rid_fresh w"
  by (simp add: rid_fresh_def split: option.splits)

lemma start_new_rid_fresh: "rid_fresh w \<Longrightarrow> rid_fresh (after (start_new supported w))"
  by (auto simp: start_new_def rid_fresh_def MediaRecorder_start_def Let_def
      split: sum.splits prod.splits option.splits dest!: newMediaRecorder_Inr)

lemma start_rid_fresh: "rid_fresh w \<Longrightarrow> rid_fresh (after (start supported w))"
  by (auto simp: start_def start_new_rid_fresh MediaRecorder_resume_def split: option.splits)
    (simp_all add: rid_fresh_def split: option.splits)

lemma stop_rid_fresh: "rid_fresh w \<Longrightarrow> rid_fresh (after (stop w))"
  by (auto simp: stop_def MediaRecorder_stop_def rid_fresh_def split: option.splits)

lemma pause_rid_fresh: "rid_fresh w \<Longrightarrow> rid_fresh (after (pause w))"
  by (auto simp: pause_def MediaRecorder_pause_def rid_fresh_def split: option.splits)

lemma onPlayingEvent_rid_fresh:
  "rid_fresh w \<Longrightarrow> rid_fresh (after (onPlayingEvent supported w))"
  unfolding onPlayingEvent_def
  by (cases "mediaRecorder w = None") (simp_all add: after_and_then_log start_rid_fresh)

lemma step_rid_fresh:
  assumes "rid_fresh w"
  shows "rid_fresh (after (step supported w e))"
  using assms
proof (cases e)
  case VideoPlaying
  with assms show ?thesis
    by (simp add: onPlayingEvent_rid_fresh)
next
  case (DataAvailable d)
  with assms show ?thesis by (simp add: rid_fresh_def split: option.splits)
next
  case RecorderStop
  then show ?thesis by (simp add: rid_fresh_def downloadVideo_def Let_def split: option.splits)
next
  case (VideoChange v)
  with assms show ?thesis by (simp add: rid_fresh_def split: option.splits)
qed (simp_all add: start_rid_fresh stop_rid_fresh pause_rid_fresh
      onPauseEvent_def onStalledEvent_def onEndedEvent_def after_and_then_log)

lemma reachable_rid_fresh:
  "rid_fresh (run supported (VideoDownloadWorker_new v fn mt opts) es)"
proof -
  have "rid_fresh w \<Longrightarrow> rid_fresh (run supported w es)" for w
    by (induction es arbitrary: w) (simp_all add: step_rid_fresh)
  then show ?thesis
    by (simp add: rid_fresh_def VideoDownloadWorker_new_def split: option.splits)
qed

subsection \<open>The downloader's loops\<close>

lemma stop_each_map: "stop_each ws = Inr (map (\<lambda>w. after (stop w)) ws)"
proof (induction ws)
  case Nil
  then show ?case by simp
next
  case (Cons w ws)
  obtain w' where "stop w = Inr w'"
    using stop_returns [of w] by (cases "stop w") (simp_all add: returns_def)
  with Cons.IH show ?case by simp
qed

lemma start_each_all:
  "list_all (\<lambda>w. returns (start supported w)) ws \<Longrightarrow>
     start_each supported ws = Inr (map (\<lambda>w. after (start supported w)) ws)"
proof (induction ws)
  case Nil
  then show ?case by simp
next
  case (Cons w ws)
  then obtain w' where "start supported w = Inr w'"
    by (cases "start supported w") (simp_all add: returns_def)
  with Cons show ?case by simp
qed

lemma start_each_first_throw:
  "list_all (\<lambda>w. returns (start supported w)) pre \<Longrightarrow> start supported w = Inl (e, w') \<Longrightarrow>
     start_each supported (pre @ w # post)
       = Inl (e, map (\<lambda>w. after (start supported w)) pre @ w' # post)"
proof (induction pre)
  case Nil
  then show ?case by simp
next
  case (Cons p pre)
  then obtain p' where "start supported p = Inr p'"
    by (cases "start supported p") (simp_all add: returns_def)
  with Cons show ?case by simp
qed

section \<open>The downloader's fan-out\<close>

text \<open>
  Claim C1, as the specification states it: whatever a worker does in \<open>start()\<close> or
  \<open>stop()\<close>, \<open>VideoDownloader.start\<close> and \<open>VideoDownloader.stop\<close> still call every later
  worker, and no exception leaves them. The loops of lines 28-30 and 35-37 have no
  \<open>try\<close>. With the first of two sources refusing \<open>captureStream\<close>, the exception leaves
  \<open>VideoDownloader.start\<close>, and the second worker, which \<open>start()\<close> would have set
  recording, is still idle.
\<close>

theorem fan_out_isolation_counterexample:
  "VideoDownloader_start any_type with_failing_first
     = Inl (CaptureStreamError, with_failing_first)
   \<and> is_Idle (workers (after (VideoDownloader_start any_type with_failing_first)) ! 1)
   \<and> is_Recording (after (start any_type (workers with_failing_first ! 1)))"
  by (simp add: evaluate)

text \<open>
  Claim C1, amended: \<open>VideoDownloader.stop\<close> calls \<open>stop()\<close> on every worker in registry
  order and returns, since no worker's \<open>stop()\<close> throws. \<open>VideoDownloader.start\<close> calls
  \<open>start()\<close> on the workers in registry order; when none throws every worker has been
  started, and when one throws the workers before it have been started, that worker is left
  as its own \<open>start()\<close> left it, the workers after it are untouched, and the exception leaves
  \<open>VideoDownloader.start\<close>.
\<close>

theorem fan_out_until_first_throw:
  "VideoDownloader_stop d = Inr (d\<lparr>workers := map (\<lambda>w. after (stop w)) (workers d)\<rparr>)
   \<and> (list_all (\<lambda>w. returns (start supported w)) (workers d) \<longrightarrow>
        VideoDownloader_start supported d
          = Inr (d\<lparr>workers := map (\<lambda>w. after (start supported w)) (workers d)\<rparr>))
   \<and> (workers d = pre @ w # post \<and> list_all (\<lambda>w. returns (start supported w)) pre
        \<and> start supported w = Inl (e, w') \<longrightarrow>
        VideoDownloader_start supported d
          = Inl (e, d\<lparr>workers := map (\<lambda>w. after (start supported w)) pre @ w' # post\<rparr>))"
  by (simp add: VideoDownloader_stop_def VideoDownloader_start_def stop_each_map start_each_all
      start_each_first_throw)

theorem fan_out_until_first_throw_witness:
  "list_all (\<lambda>w. returns (start any_type w)) (workers all_capturable)
   \<and> VideoDownloader_start any_type all_capturable
       = Inr (all_capturable\<lparr>workers :=
                map (\<lambda>w. after (start any_type w)) (workers all_capturable)\<rparr>)
   \<and> workers with_failing_second
       = [default_worker playing_video] @ default_worker protected_video
           # [default_worker waiting_video]
   \<and> list_all (\<lambda>w. returns (start any_type w)) [default_worker playing_video]
   \<and> start any_type (default_worker protected_video)
       = Inl (CaptureStreamError, default_worker protected_video)
   \<and> VideoDownloader_start any_type with_failing_second
       = Inl (CaptureStreamError, with_failing_second\<lparr>workers :=
                map (\<lambda>w. after (start any_type w)) [default_worker playing_video]
                  @ default_worker protected_video # [default_worker waiting_video]\<rparr>)"
proof -
  have h1: "list_all (\<lambda>w. returns (start any_type w)) (workers all_capturable)"
    by (simp add: evaluate)
  have h2: "workers with_failing_second
       = [default_worker playing_video] @ default_worker protected_video
           # [default_worker waiting_video]"
    by (simp add: evaluate)
  have h3: "list_all (\<lambda>w. returns (start any_type w)) [default_worker playing_video]"
    by (simp add: evaluate)
  have h4: "start any_type (default_worker protected_video)
       = Inl (CaptureStreamError, default_worker protected_video)"
    by (simp add: evaluate)
  from fan_out_until_first_throw [of all_capturable any_type] h1
  have c1: "VideoDownloader_start any_type all_capturable
       = Inr (all_capturable\<lparr>workers :=
                map (\<lambda>w. after (start any_type w)) (workers all_capturable)\<rparr>)"
    by blast
  from fan_out_until_first_throw [of with_failing_second any_type
      "[default_worker playing_video]" "default_worker protected_video"
      "[default_worker waiting_video]" CaptureStreamError "default_worker protected_video"]
    h2 h3 h4
  have c2: "VideoDownloader_start any_type with_failing_second
       = Inl (CaptureStreamError, with_failing_second\<lparr>workers :=
                map (\<lambda>w. after (start any_type w)) [default_worker playing_video]
                  @ default_worker protected_video # [default_worker waiting_video]\<rparr>)"
    by blast
  from h1 h2 h3 h4 c1 c2 show ?thesis by blast
qed

section \<open>The worker's state machine\<close>

text \<open>
  Claim C2, as the specification states it: an Armed worker whose source emits "playing"
  begins encoding on the recorder it already holds, and is Recording afterwards. The listener
  of lines 72-77 calls \<open>start()\<close>, whose first branch (line 138) treats an inactive recorder
  like a missing one and makes a new recorder (line 139). The armed worker below holds
  recorder 0; after the event it holds recorder 1, the second it has made. And a source that
  emits "playing" at position 0 does not satisfy the \<open>playing\<close> property of lines 5-11, so
  the worker armed on it is still Armed after the event.
\<close>

theorem playing_event_existing_recorder_counterexample:
  "is_Armed armed_worker \<and> playing (video armed_worker)
   \<and> map_option rid (mediaRecorder armed_worker) = Some 0
   \<and> map_option rid (mediaRecorder (after (onPlayingEvent any_type armed_worker))) = Some 1
   \<and> created (after (onPlayingEvent any_type armed_worker)) = 2
   \<and> is_Armed armed_at_zero
   \<and> is_Armed (after (onPlayingEvent any_type armed_at_zero))"
  by (simp add: evaluate)

text \<open>
  Claim C2, amended: for every worker in the Armed state, when the source emits "playing",
  a recorder can be made and the source's \<open>playing\<close> property holds, the worker makes a new
  recorder, which replaces the one it held, begins encoding on the new one and is Recording;
  the buffer is untouched. (That the recorder held was made earlier by the worker,
  \<open>rid r0 < created w\<close>, holds in every state a worker can reach: \<open>reachable_rid_fresh\<close>.)
\<close>

theorem playing_event_when_Armed_makes_new_recorder:
  "mediaRecorder w = Some r0 \<and> rstate r0 = Inactive \<and> rid r0 < created w
    \<and> can_record supported w \<and> playing (video w) \<longrightarrow>
     (\<exists>w' r. onPlayingEvent supported w = Inr w' \<and> is_Recording w'
        \<and> mediaRecorder w' = Some r \<and> rid r = created w \<and> rid r \<noteq> rid r0
        \<and> created w' = Suc (created w) \<and> recordedChunks w' = recordedChunks w)"
proof (intro impI, elim conjE)
  assume a: "mediaRecorder w = Some r0" "rstate r0 = Inactive" "rid r0 < created w"
    "can_record supported w" "playing (video w)"
  have "is_Armed w" using a by (simp add: is_Armed_def recorder_state_def)
  then have "start supported w = start_new supported w" by (simp add: start_Idle_or_Armed)
  then show "\<exists>w' r. onPlayingEvent supported w = Inr w' \<and> is_Recording w'
        \<and> mediaRecorder w' = Some r \<and> rid r = created w \<and> rid r \<noteq> rid r0
        \<and> created w' = Suc (created w) \<and> recordedChunks w' = recordedChunks w"
    using a by (simp add: onPlayingEvent_def start_new_can_record is_Recording_def
        recorder_state_def fresh_recorder_def)
qed

theorem playing_event_when_Armed_makes_new_recorder_witness:
  "mediaRecorder armed_worker = Some (fresh_recorder (default_worker waiting_video) Inactive)
   \<and> rstate (fresh_recorder (default_worker waiting_video) Inactive) = Inactive
   \<and> rid (fresh_recorder (default_worker waiting_video) Inactive) < created armed_worker
   \<and> can_record any_type armed_worker \<and> playing (video armed_worker)
   \<and> is_Recording (after (onPlayingEvent any_type armed_worker))
   \<and> created (after (onPlayingEvent any_type armed_worker)) = Suc (created armed_worker)"
proof -
  have h: "mediaRecorder armed_worker = Some (fresh_recorder (default_worker waiting_video) Inactive)"
    "rstate (fresh_recorder (default_worker waiting_video) Inactive) = Inactive"
    "rid (fresh_recorder (default_worker waiting_video) Inactive) < created armed_worker"
    "can_record any_type armed_worker" "playing (video armed_worker)"
    by (simp_all add: evaluate fresh_recorder_def)
  from playing_event_when_Armed_makes_new_recorder
    [of armed_worker "fresh_recorder (default_worker waiting_video) Inactive" any_type] h
  obtain w' where "onPlayingEvent any_type armed_worker = Inr w'" "is_Recording w'"
    "created w' = Suc (created armed_worker)"
    by blast
  with h show ?thesis by simp
qed

text \<open>
  Claim C3, as the specification states it: on a source that never becomes ready, \<open>start()\<close>
  leaves the worker Armed with no chunk, and \<open>stop()\<close> then takes it to Idle, releasing the
  recorder, with no artifact and no download. The guard of line 155 makes \<open>stop()\<close> do
  nothing while the recorder is inactive: after \<open>start()\<close> and \<open>stop()\<close> the worker still
  holds its recorder and is Armed, not Idle.
\<close>

theorem stop_when_Armed_not_Idle_counterexample:
  "is_Armed (run any_type (default_worker waiting_video) [CallStart, CallStop])
   \<and> \<not> is_Idle (run any_type (default_worker waiting_video) [CallStart, CallStop])
   \<and> mediaRecorder (run any_type (default_worker waiting_video) [CallStart, CallStop])
       = mediaRecorder (run any_type (default_worker waiting_video) [CallStart])"
  by (simp add: evaluate)

text \<open>
  Claim C3, amended: on a source that is not playing, \<open>start()\<close> on an idle worker with an
  empty buffer (a recorder can be made) leaves the worker Armed with no chunk accumulated;
  a following \<open>stop()\<close> returns and changes nothing: the worker stays Armed and keeps its
  recorder, no artifact is emitted and nothing is offered for download.
\<close>

theorem stop_when_Armed_is_noop:
  "is_Idle w \<and> recordedChunks w = [] \<and> \<not> playing (video w) \<and> can_record supported w \<longrightarrow>
     (\<exists>w1. start supported w = Inr w1 \<and> is_Armed w1 \<and> recordedChunks w1 = []
        \<and> stop w1 = Inr w1 \<and> downloads w1 = downloads w)"
  by (auto simp: start_Idle_or_Armed start_new_can_record is_Armed_def recorder_state_def
      fresh_recorder_def stop_def)

theorem stop_when_Armed_is_noop_witness:
  "is_Idle (default_worker waiting_video) \<and> recordedChunks (default_worker waiting_video) = []
   \<and> \<not> playing (video (default_worker waiting_video))
   \<and> can_record any_type (default_worker waiting_video)
   \<and> is_Armed (after (start any_type (default_worker waiting_video)))
   \<and> stop (after (start any_type (default_worker waiting_video)))
       = Inr (after (start any_type (default_worker waiting_video)))
   \<and> downloads (after (start any_type (default_worker waiting_video))) = []"
proof -
  have h: "is_Idle (default_worker waiting_video)"
    "recordedChunks (default_worker waiting_video) = []"
    "\<not> playing (video (default_worker waiting_video))"
    "can_record any_type (default_worker waiting_video)"
    "downloads (default_worker waiting_video) = []"
    by (simp_all add: evaluate)
  from stop_when_Armed_is_noop [of "default_worker waiting_video" any_type] h
  obtain w1 where "start any_type (default_worker waiting_video) = Inr w1" "is_Armed w1"
    "stop w1 = Inr w1" "downloads w1 = downloads (default_worker waiting_video)"
    by blast
  with h show ?thesis by simp
qed

section \<open>Configuration and materialization\<close>

text \<open>
  Claim C4: a worker constructed with an explicit filename and container format tags its
  artifact with that format and offers it under that filename. The constructor (lines 57-61)
  takes \<open>mimeType\<close> as its third argument, with the field's value as the default, and
  assigns \<open>#filename\<close> and \<open>#options\<close> but never \<open>#mimeType\<close>. A worker constructed with
  \<open>"talk.mp4"\<close> and \<open>"video/mp4"\<close> that records one chunk offers the file under the name
  given, tagged \<open>"video/webm"\<close>, not \<open>"video/mp4"\<close>.
\<close>

theorem constructor_mimeType_ignored_at_download:
  "downloads (run any_type
       (VideoDownloadWorker_new playing_video (Some ''talk.mp4'') (Some ''video/mp4'') None)
       [CallStart, DataAvailable chunk_a, CallStop, RecorderStop])
     = [(''talk.mp4'', \<lparr>bytes = [1, 2], btype = ''video/webm''\<rparr>)]"
  by (simp add: evaluate)

lemma constructor_fields:
  "filename (VideoDownloadWorker_new v (Some f) mt opts) = f"
  "options (VideoDownloadWorker_new v fn mt (Some x)) = x"
  "mimeType (VideoDownloadWorker_new v fn mt opts) = ''video/webm''"
  by (simp_all add: VideoDownloadWorker_new_def)

text \<open>
  Claim C5 (round trip): for every N \<ge> 1, a worker started on a playing source that
  receives N non-empty chunks and is then stopped emits exactly one artifact, the
  concatenation of the N chunks in arrival order, and its buffer is empty right after the
  materialization. \<open>start()\<close> returns with the worker Recording on the recorder it has just
  made, and the recorder is still recording when the N chunks are in the buffer. \<open>stop()\<close>
  returns having made that very recorder inactive; it emits nothing by itself. Because the
  recorder has been stopped the host delivers the recorder's last \<open>dataavailable\<close> event
  and its \<open>stop\<close> event, and the latter runs \<open>#downloadVideo\<close>, which emits the artifact:
  the N chunks, followed by the last event's data \<open>f\<close> when it is not empty. The worker is
  then Idle with an empty buffer, as it was at the beginning, so the cycle can be repeated.
\<close>

theorem round_trip:
  "is_Idle w \<and> recordedChunks w = [] \<and> playing (video w) \<and> can_record supported w
    \<and> cs \<noteq> [] \<and> list_all (\<lambda>c. 0 < blob_size c) cs \<longrightarrow>
     (\<exists>w1 w2. start supported w = Inr w1 \<and> is_Recording w1
        \<and> mediaRecorder w1 = Some (fresh_recorder w Recording)
        \<and> is_Recording (run supported w1 (map DataAvailable cs))
        \<and> stop (run supported w1 (map DataAvailable cs)) = Inr w2
        \<and> mediaRecorder w2 = Some ((fresh_recorder w Recording)\<lparr>rstate := Inactive\<rparr>)
        \<and> downloads w2 = downloads w
        \<and> recordedChunks w2 = cs
        \<and> queued_by_stop (run supported w1 (map DataAvailable cs)) w2 f
            = [DataAvailable f, RecorderStop]
        \<and> downloads (run supported w2
              (queued_by_stop (run supported w1 (map DataAvailable cs)) w2 f))
            = downloads w
              @ [(filename w, Blob (cs @ filter (\<lambda>c. 0 < blob_size c) [f]) (mimeType w))]
        \<and> recordedChunks (run supported w2
              (queued_by_stop (run supported w1 (map DataAvailable cs)) w2 f)) = []
        \<and> is_Idle (run supported w2
              (queued_by_stop (run supported w1 (map DataAvailable cs)) w2 f))
        \<and> run supported w (CallStart # map DataAvailable cs @ [CallStop, RecorderStop])
            = downloadVideo w2
        \<and> downloads (downloadVideo w2) = downloads w @ [(filename w, Blob cs (mimeType w))]
        \<and> bytes (Blob cs (mimeType w)) = concat (map bytes cs)
        \<and> recordedChunks (downloadVideo w2) = []
        \<and> is_Idle (downloadVideo w2))"
proof (intro impI, elim conjE)
  assume a: "is_Idle w" "recordedChunks w = []" "playing (video w)" "can_record supported w"
    "cs \<noteq> []" "list_all (\<lambda>c. 0 < blob_size c) cs"
  let ?r = "fresh_recorder w Recording"
  let ?w1 = "wlog ''recording'' []
               (w\<lparr>created := Suc (created w), mediaRecorder := Some ?r\<rparr>)"
  let ?wd = "run supported ?w1 (map DataAvailable cs)"
  let ?w2 = "wlog ''stop active or paused media recording'' []
               (?wd\<lparr>mediaRecorder := Some (?r\<lparr>rstate := Inactive\<rparr>)\<rparr>)"
  let ?q = "queued_by_stop ?wd ?w2 f"
  have 1: "start supported w = Inr ?w1"
    using a by (simp add: start_Idle_or_Armed start_new_can_record)
  have 2: "is_Recording ?w1" "mediaRecorder ?w1 = Some ?r"
    by (simp_all add: is_Recording_def recorder_state_def fresh_recorder_def)
  have keep: "filter (\<lambda>c. 0 < blob_size c) cs = cs"
    using a(6) by (simp add: list_all_iff)
  have d: "mediaRecorder ?wd = Some ?r" "downloads ?wd = downloads w"
    "filename ?wd = filename w" "mimeType ?wd = mimeType w" "recordedChunks ?wd = cs"
    using a(2) by (simp_all add: deliver_fields keep)
  have rs: "recorder_state ?wd = Some Recording"
    "recorder_state ?w2 = Some Inactive"
    "map_option rid (mediaRecorder ?w2) = map_option rid (mediaRecorder ?wd)"
    unfolding recorder_state_def wlog_fields d(1) by (simp_all add: fresh_recorder_def)
  have 3: "is_Recording ?wd"
    unfolding is_Recording_def by (rule rs(1))
  have 4: "stop ?wd = Inr ?w2"
    using d(1) by (rule stop_active) (simp add: fresh_recorder_def)
  have 5: "mediaRecorder ?w2 = Some (?r\<lparr>rstate := Inactive\<rparr>)" "downloads ?w2 = downloads w"
    "recordedChunks ?w2 = cs" "filename ?w2 = filename w" "mimeType ?w2 = mimeType w"
    by (simp_all add: d)
  have 6: "?q = [DataAvailable f, RecorderStop]"
    unfolding queued_by_stop_def by (simp only: rs simp_thms if_True)
  have 7: "run supported ?w2 ?q = downloadVideo (onDataAvailable f ?w2)"
    by (simp only: 6 run.simps step.simps after_simps)
  have 8: "downloads (run supported ?w2 ?q)
      = downloads w @ [(filename w, Blob (cs @ filter (\<lambda>c. 0 < blob_size c) [f]) (mimeType w))]"
    by (simp only: 7 downloadVideo_downloads onDataAvailable_chunks onDataAvailable_fields 5)
  have 9: "recordedChunks (run supported ?w2 ?q) = []" "is_Idle (run supported ?w2 ?q)"
    by (simp_all only: 7 downloadVideo_chunks downloadVideo_Idle)
  have 10: "run supported w (CallStart # map DataAvailable cs @ [CallStop, RecorderStop])
      = downloadVideo ?w2"
    by (simp add: run_append 1 4)
  have 11: "downloads (downloadVideo ?w2) = downloads w @ [(filename w, Blob cs (mimeType w))]"
    by (simp add: downloadVideo_downloads d)
  have 12: "bytes (Blob cs (mimeType w)) = concat (map bytes cs)" by (simp add: Blob_def)
  have 13: "recordedChunks (downloadVideo ?w2) = []" "is_Idle (downloadVideo ?w2)"
    by (simp_all add: downloadVideo_chunks downloadVideo_Idle)
  show "\<exists>w1 w2. start supported w = Inr w1 \<and> is_Recording w1
        \<and> mediaRecorder w1 = Some (fresh_recorder w Recording)
        \<and> is_Recording (run supported w1 (map DataAvailable cs))
        \<and> stop (run supported w1 (map DataAvailable cs)) = Inr w2
        \<and> mediaRecorder w2 = Some ((fresh_recorder w Recording)\<lparr>rstate := Inactive\<rparr>)
        \<and> downloads w2 = downloads w
        \<and> recordedChunks w2 = cs
        \<and> queued_by_stop (run supported w1 (map DataAvailable cs)) w2 f
            = [DataAvailable f, RecorderStop]
        \<and> downloads (run supported w2
              (queued_by_stop (run supported w1 (map DataAvailable cs)) w2 f))
            = downloads w
              @ [(filename w, Blob (cs @ filter (\<lambda>c. 0 < blob_size c) [f]) (mimeType w))]
        \<and> recordedChunks (run supported w2
              (queued_by_stop (run supported w1 (map DataAvailable cs)) w2 f)) = []
        \<and> is_Idle (run supported w2
              (queued_by_stop (run supported w1 (map DataAvailable cs)) w2 f))
        \<and> run supported w (CallStart # map DataAvailable cs @ [CallStop, RecorderStop])
            = downloadVideo w2
        \<and> downloads (downloadVideo w2) = downloads w @ [(filename w, Blob cs (mimeType w))]
        \<and> bytes (Blob cs (mimeType w)) = concat (map bytes cs)
        \<and> recordedChunks (downloadVideo w2) = []
        \<and> is_Idle (downloadVideo w2)"
    apply (rule exI [of _ ?w1])
    apply (rule exI [of _ ?w2])
    apply (intro conjI)
    apply (rule 1 2 3 4 5 6 8 9 10 11 12 13)+
    done
qed

theorem round_trip_witness:
  "is_Idle (default_worker playing_video) \<and> recordedChunks (default_worker playing_video) = []
   \<and> playing (video (default_worker playing_video))
   \<and> can_record any_type (default_worker playing_video)
   \<and> [chunk_a, chunk_b] \<noteq> [] \<and> list_all (\<lambda>c. 0 < blob_size c) [chunk_a, chunk_b]
   \<and> recorder_state (run any_type (default_worker playing_video)
        (CallStart # map DataAvailable [chunk_a, chunk_b])) = Some Recording
   \<and> recorder_state (run any_type (default_worker playing_video)
        (CallStart # map DataAvailable [chunk_a, chunk_b] @ [CallStop])) = Some Inactive
   \<and> downloads (run any_type (default_worker playing_video)
        (CallStart # map DataAvailable [chunk_a, chunk_b] @ [CallStop])) = []
   \<and> downloads (run any_type (default_worker playing_video)
        (CallStart # map DataAvailable [chunk_a, chunk_b] @ [CallStop, RecorderStop]))
       = [(''cast.webm'', \<lparr>bytes = [1, 2, 3], btype = ''video/webm''\<rparr>)]
   \<and> recordedChunks (run any_type (default_worker playing_video)
        (CallStart # map DataAvailable [chunk_a, chunk_b] @ [CallStop, RecorderStop])) = []"
proof -
  have h: "is_Idle (default_worker playing_video)"
    "recordedChunks (default_worker playing_video) = []"
    "playing (video (default_worker playing_video))"
    "can_record any_type (default_worker playing_video)"
    "[chunk_a, chunk_b] \<noteq> []" "list_all (\<lambda>c. 0 < blob_size c) [chunk_a, chunk_b]"
    by (simp_all add: evaluate)
  have v: "downloads (default_worker playing_video) = []"
    "filename (default_worker playing_video) = ''cast.webm''"
    "Blob [chunk_a, chunk_b] (mimeType (default_worker playing_video))
       = \<lparr>bytes = [1, 2, 3], btype = ''video/webm''\<rparr>"
    by (simp_all add: evaluate)
  have s: "recorder_state (run any_type (default_worker playing_video)
        (CallStart # map DataAvailable [chunk_a, chunk_b])) = Some Recording"
    "recorder_state (run any_type (default_worker playing_video)
        (CallStart # map DataAvailable [chunk_a, chunk_b] @ [CallStop])) = Some Inactive"
    "downloads (run any_type (default_worker playing_video)
        (CallStart # map DataAvailable [chunk_a, chunk_b] @ [CallStop])) = []"
    by (simp_all add: evaluate)
  from round_trip [of "default_worker playing_video" any_type "[chunk_a, chunk_b]" chunk_empty] h
  obtain w2 where
    "run any_type (default_worker playing_video)
        (CallStart # map DataAvailable [chunk_a, chunk_b] @ [CallStop, RecorderStop])
       = downloadVideo w2"
    "downloads (downloadVideo w2) = downloads (default_worker playing_video)
       @ [(filename (default_worker playing_video),
           Blob [chunk_a, chunk_b] (mimeType (default_worker playing_video)))]"
    "recordedChunks (downloadVideo w2) = []"
    by blast
  with h v s show ?thesis by simp
qed

text \<open>
  Claim C6: \<open>start()\<close> while Recording only logs "already recording": the recorder held,
  the number of recorders made and the buffer are unchanged. Called twice in succession on
  an idle worker with a playing source, \<open>start()\<close> makes one recorder, and the second call
  finds the worker Recording and changes nothing but the log.
\<close>

theorem start_idempotent_while_Recording:
  "(is_Recording w \<longrightarrow>
      start supported w = Inr (wlog ''already recording'' [] w)
      \<and> mediaRecorder (after (start supported w)) = mediaRecorder w
      \<and> created (after (start supported w)) = created w
      \<and> recordedChunks (after (start supported w)) = recordedChunks w)
   \<and> (is_Idle w \<and> can_record supported w \<and> playing (video w) \<longrightarrow>
        (\<exists>w1. start supported w = Inr w1 \<and> is_Recording w1 \<and> created w1 = Suc (created w)
           \<and> start supported w1 = Inr (wlog ''already recording'' [] w1)))"
proof -
  have "\<exists>w1. start supported w = Inr w1 \<and> is_Recording w1 \<and> created w1 = Suc (created w)
           \<and> start supported w1 = Inr (wlog ''already recording'' [] w1)"
    if "is_Idle w" "can_record supported w" "playing (video w)"
  proof -
    let ?w1 = "wlog ''recording'' []
      (w\<lparr>created := Suc (created w), mediaRecorder := Some (fresh_recorder w Recording)\<rparr>)"
    have 1: "start supported w = Inr ?w1"
      using that by (simp add: start_Idle_or_Armed start_new_can_record)
    have 2: "is_Recording ?w1"
      by (simp add: is_Recording_def recorder_state_def fresh_recorder_def)
    from 1 2 start_when_Recording [OF 2] show ?thesis by simp
  qed
  then show ?thesis by (simp add: start_when_Recording)
qed

theorem start_idempotent_while_Recording_witness:
  "is_Recording recording_worker
   \<and> start any_type recording_worker = Inr (wlog ''already recording'' [] recording_worker)
   \<and> created (after (start any_type recording_worker)) = created recording_worker
   \<and> is_Idle (default_worker playing_video)
   \<and> can_record any_type (default_worker playing_video)
   \<and> playing (video (default_worker playing_video))
   \<and> created (after (start any_type (default_worker playing_video))) = 1
   \<and> created (run any_type (default_worker playing_video) [CallStart, CallStart]) = 1"
proof -
  have h: "is_Recording recording_worker" "is_Idle (default_worker playing_video)"
    "can_record any_type (default_worker playing_video)"
    "playing (video (default_worker playing_video))"
    "created (default_worker playing_video) = 0"
    by (simp_all add: evaluate)
  from start_idempotent_while_Recording [of recording_worker any_type] h(1)
  have c1: "start any_type recording_worker = Inr (wlog ''already recording'' [] recording_worker)"
    "created (after (start any_type recording_worker)) = created recording_worker"
    by blast+
  from start_idempotent_while_Recording [of "default_worker playing_video" any_type] h
  obtain w1 where "start any_type (default_worker playing_video) = Inr w1"
    "created w1 = Suc (created (default_worker playing_video))"
    "start any_type w1 = Inr (wlog ''already recording'' [] w1)"
    by blast
  with h c1 show ?thesis by simp
qed

section \<open>Chunk delivery\<close>

text \<open>
  Claim C7: the chunk handler appends the delivered chunk to the buffer if and only if its
  size is greater than zero; a zero-byte chunk leaves the buffer as it was. So a buffer
  without an empty chunk never gets one, whatever happens to the worker, and the artifact
  is built from exactly the chunks of the buffer.
\<close>

theorem onDataAvailable_keeps_nonempty_only:
  "((recordedChunks (onDataAvailable d w) = recordedChunks w @ [d]) = (0 < blob_size d))
   \<and> ((recordedChunks (onDataAvailable d w) = recordedChunks w) = (blob_size d = 0))
   \<and> (no_empty_chunk w \<longrightarrow> no_empty_chunk (run supported w es))
   \<and> snd (last (downloads (downloadVideo w))) = Blob (recordedChunks w) (mimeType w)"
  using run_no_empty_chunk [of w supported es]
  by (simp add: onDataAvailable_chunks downloadVideo_downloads)

theorem onDataAvailable_keeps_nonempty_only_witness:
  "no_empty_chunk recording_worker
   \<and> no_empty_chunk (run any_type recording_worker
        [DataAvailable chunk_empty, DataAvailable chunk_a, DataAvailable chunk_empty])
   \<and> recordedChunks (run any_type recording_worker
        [DataAvailable chunk_empty, DataAvailable chunk_a, DataAvailable chunk_empty])
       = [chunk_a]"
proof -
  have h: "no_empty_chunk recording_worker" by (simp add: evaluate)
  from onDataAvailable_keeps_nonempty_only [of chunk_a recording_worker any_type
      "[DataAvailable chunk_empty, DataAvailable chunk_a, DataAvailable chunk_empty]"] h
  have c: "no_empty_chunk (run any_type recording_worker
        [DataAvailable chunk_empty, DataAvailable chunk_a, DataAvailable chunk_empty])"
    by blast
  have "recordedChunks (run any_type recording_worker
        [DataAvailable chunk_empty, DataAvailable chunk_a, DataAvailable chunk_empty])
       = [chunk_a]"
    by (simp add: evaluate)
  with h c show ?thesis by simp
qed

text \<open>
  Claim C8, as the specification states it: when the recorder cannot be made during
  \<open>start()\<close>, the session stays Idle, the failure is logged and reaches the caller as a
  non-fatal result, and nothing is retried. \<open>start()\<close> has no \<open>try\<close> and logs only on its
  three successful paths: on a source that refuses \<open>captureStream\<close> the call throws, and
  the console is as it was. And a worker that was Armed when its \<open>start()\<close> failed keeps
  its inactive recorder, so the next "playing" event calls \<open>start()\<close> once more, with no
  call from outside: below it ends Recording on the second recorder the worker has made.
\<close>

theorem failed_instantiation_not_logged_counterexample:
  "start any_type (default_worker protected_video)
     = Inl (CaptureStreamError, default_worker protected_video)
   \<and> \<not> returns (start any_type (default_worker protected_video))
   \<and> console (after (start any_type (default_worker protected_video)))
       = console (default_worker protected_video)
   \<and> is_Armed armed_uncapturable
   \<and> start any_type armed_uncapturable = Inl (CaptureStreamError, armed_uncapturable)
   \<and> is_Recording (run any_type (after (start any_type armed_uncapturable))
        [VideoChange playing_video, VideoPlaying])
   \<and> created (run any_type (after (start any_type armed_uncapturable))
        [VideoChange playing_video, VideoPlaying]) = Suc (created armed_uncapturable)"
  by (simp add: evaluate)

text \<open>
  Claim C8, amended: when the recorder cannot be made during \<open>start()\<close> of an Idle or Armed
  worker, the exception of \<open>captureStream\<close> or of the \<open>MediaRecorder\<close> constructor is
  thrown to the caller of \<open>start()\<close>, and the worker is exactly as before the call: nothing
  is logged, no recorder has been made, and an Idle session is Idle with no recorder held.
  For an Idle session nothing is retried: along any later events without a call of
  \<open>start()\<close>, whatever the source becomes, no handler throws, no recorder is made and the
  session stays Idle. (Nothing of the kind is said of a session that was Armed.)
\<close>

theorem failed_instantiation_throws_unchanged:
  "((is_Idle w \<or> is_Armed w) \<and> newMediaRecorder supported w = Inl e \<longrightarrow>
      start supported w = Inl (e, w))
   \<and> (is_Idle w \<and> newMediaRecorder supported w = Inl e \<and> CallStart \<notin> set es \<longrightarrow>
        is_Idle (after (start supported w))
        \<and> all_return supported (after (start supported w)) es
        \<and> is_Idle (run supported (after (start supported w)) es)
        \<and> created (run supported (after (start supported w)) es) = created w)"
proof -
  have 1: "start supported w = Inl (e, w)"
    if "is_Idle w \<or> is_Armed w" "newMediaRecorder supported w = Inl e"
    using that by (auto simp: start_Idle_or_Armed start_new_def)
  have "is_Idle (after (start supported w))
        \<and> all_return supported (after (start supported w)) es
        \<and> is_Idle (run supported (after (start supported w)) es)
        \<and> created (run supported (after (start supported w)) es) = created w"
    if i: "is_Idle w" and f: "newMediaRecorder supported w = Inl e" and n: "CallStart \<notin> set es"
  proof -
    from 1 i f have "after (start supported w) = w" by simp
    with i n run_Idle [OF i n, of supported] run_Idle_all_return [OF i n, of supported]
    show ?thesis by simp
  qed
  with 1 show ?thesis by blast
qed

theorem failed_instantiation_throws_unchanged_witness:
  "is_Idle (default_worker protected_video)
   \<and> newMediaRecorder any_type (default_worker protected_video) = Inl CaptureStreamError
   \<and> CallStart \<notin> set [VideoChange playing_video, VideoPlaying, DataAvailable chunk_a,
        VideoStalled, CallStop, VideoEnded]
   \<and> start any_type (default_worker protected_video)
       = Inl (CaptureStreamError, default_worker protected_video)
   \<and> is_Idle (after (start any_type (default_worker protected_video)))
   \<and> all_return any_type (after (start any_type (default_worker protected_video)))
        [VideoChange playing_video, VideoPlaying, DataAvailable chunk_a,
         VideoStalled, CallStop, VideoEnded]
   \<and> is_Idle (run any_type (after (start any_type (default_worker protected_video)))
        [VideoChange playing_video, VideoPlaying, DataAvailable chunk_a,
         VideoStalled, CallStop, VideoEnded])
   \<and> created (run any_type (after (start any_type (default_worker protected_video)))
        [VideoChange playing_video, VideoPlaying, DataAvailable chunk_a,
         VideoStalled, CallStop, VideoEnded]) = 0"
proof -
  have h: "is_Idle (default_worker protected_video)"
    "newMediaRecorder any_type (default_worker protected_video) = Inl CaptureStreamError"
    "CallStart \<notin> set [VideoChange playing_video, VideoPlaying, DataAvailable chunk_a,
        VideoStalled, CallStop, VideoEnded]"
    by (simp_all add: evaluate)
  have z: "created (default_worker protected_video) = 0" by (simp add: evaluate)
  from failed_instantiation_throws_unchanged [of "default_worker protected_video" any_type
      CaptureStreamError "[VideoChange playing_video, VideoPlaying, DataAvailable chunk_a,
        VideoStalled, CallStop, VideoEnded]"] h
  have c: "start any_type (default_worker protected_video)
       = Inl (CaptureStreamError, default_worker protected_video)"
    "is_Idle (after (start any_type (default_worker protected_video)))"
    "all_return any_type (after (start any_type (default_worker protected_video)))
        [VideoChange playing_video, VideoPlaying, DataAvailable chunk_a,
         VideoStalled, CallStop, VideoEnded]"
    "is_Idle (run any_type (after (start any_type (default_worker protected_video)))
        [VideoChange playing_video, VideoPlaying, DataAvailable chunk_a,
         VideoStalled, CallStop, VideoEnded])"
    "created (run any_type (after (start any_type (default_worker protected_video)))
        [VideoChange playing_video, VideoPlaying, DataAvailable chunk_a,
         VideoStalled, CallStop, VideoEnded]) = created (default_worker protected_video)"
    by blast+
  from h c z show ?thesis by simp
qed

text \<open>
  Claim C9: materialization is atomic with respect to chunk delivery. Materialization is
  the handler \<open>#downloadVideo\<close> of the recorder's \<open>stop\<close> event; it builds the blob from
  the buffer, offers it and replaces the buffer by a new empty array in one run of the
  handler, and a handler is not interleaved with another. Whatever events follow, chunk
  deliveries among them, the artifact stays the blob of the buffer as it was when the
  handler began, at its place among the downloads; the chunks delivered after it make up
  the new buffer and are in no download yet. (A chunk delivered between the call of
  \<open>stop()\<close> and the \<open>stop\<close> event precedes materialization and belongs to the artifact:
  \<open>chunk_before_stop_event_is_kept\<close>.)
\<close>

theorem materialization_atomic:
  "take (Suc (length (downloads w))) (downloads (run supported (downloadVideo w) es))
     = downloads w @ [(filename w, Blob (recordedChunks w) (mimeType w))]
   \<and> recordedChunks (run supported (downloadVideo w) (map DataAvailable cs))
       = filter (\<lambda>c. 0 < blob_size c) cs
   \<and> downloads (run supported (downloadVideo w) (map DataAvailable cs))
       = downloads w @ [(filename w, Blob (recordedChunks w) (mimeType w))]"
proof -
  obtain more where
    "downloads (run supported (downloadVideo w) es) = downloads (downloadVideo w) @ more"
    using run_downloads by blast
  then have "take (Suc (length (downloads w))) (downloads (run supported (downloadVideo w) es))
     = downloads w @ [(filename w, Blob (recordedChunks w) (mimeType w))]"
    by (simp add: downloadVideo_downloads)
  then show ?thesis
    by (simp add: deliver_fields downloadVideo_chunks downloadVideo_downloads)
qed

lemma chunk_before_stop_event_is_kept:
  assumes "mediaRecorder w = Some r" "rstate r \<noteq> Inactive"
  shows "downloads (run supported w [CallStop, DataAvailable d, RecorderStop])
     = downloads w
       @ [(filename w, Blob (recordedChunks w @ filter (\<lambda>c. 0 < blob_size c) [d]) (mimeType w))]"
  by (simp add: stop_active [OF assms] downloadVideo_downloads onDataAvailable_chunks)

text \<open>
  Claim C10: a "playing" event that finds the worker without a recorder, before the first
  \<open>start()\<close> or after \<open>#downloadVideo\<close> has released the recorder, only logs: no recorder
  is made and the worker stays Idle. Along any sequence of events without a call of
  \<open>start()\<close> an Idle worker stays Idle and makes no recorder.
\<close>

theorem playing_event_when_Idle_is_noop:
  "(is_Idle w \<longrightarrow>
      onPlayingEvent supported w = Inr (wlog ''video is now playing'' [''playing''] w)
      \<and> is_Idle (after (onPlayingEvent supported w))
      \<and> created (after (onPlayingEvent supported w)) = created w)
   \<and> is_Idle (downloadVideo w)
   \<and> (is_Idle w \<and> CallStart \<notin> set es \<longrightarrow>
        is_Idle (run supported w es) \<and> created (run supported w es) = created w)"
  using run_Idle [of w es supported]
  by (simp add: onPlayingEvent_Idle downloadVideo_Idle)

theorem playing_event_when_Idle_is_noop_witness:
  "is_Idle (default_worker playing_video)
   \<and> CallStart \<notin> set [VideoPlaying, VideoPause, DataAvailable chunk_a, CallStop, VideoEnded,
        RecorderStop, VideoPlaying]
   \<and> onPlayingEvent any_type (default_worker playing_video)
       = Inr (wlog ''video is now playing'' [''playing''] (default_worker playing_video))
   \<and> is_Idle (run any_type (default_worker playing_video)
        [VideoPlaying, VideoPause, DataAvailable chunk_a, CallStop, VideoEnded,
         RecorderStop, VideoPlaying])
   \<and> created (run any_type (default_worker playing_video)
        [VideoPlaying, VideoPause, DataAvailable chunk_a, CallStop, VideoEnded,
         RecorderStop, VideoPlaying]) = 0"
proof -
  have h: "is_Idle (default_worker playing_video)"
    "CallStart \<notin> set [VideoPlaying, VideoPause, DataAvailable chunk_a, CallStop, VideoEnded,
        RecorderStop, VideoPlaying]"
    "created (default_worker playing_video) = 0"
    by (simp_all add: evaluate)
  from playing_event_when_Idle_is_noop [of "default_worker playing_video" any_type
      "[VideoPlaying, VideoPause, DataAvailable chunk_a, CallStop, VideoEnded,
        RecorderStop, VideoPlaying]"] h(1,2)
  have c: "onPlayingEvent any_type (default_worker playing_video)
       = Inr (wlog ''video is now playing'' [''playing''] (default_worker playing_video))"
    "is_Idle (run any_type (default_worker playing_video)
        [VideoPlaying, VideoPause, DataAvailable chunk_a, CallStop, VideoEnded,
         RecorderStop, VideoPlaying])"
    "created (run any_type (default_worker playing_video)
        [VideoPlaying, VideoPause, DataAvailable chunk_a, CallStop, VideoEnded,
         RecorderStop, VideoPlaying]) = created (default_worker playing_video)"
    by blast+
  with h show ?thesis by simp
qed

end
